theory Spec2Isabelle
  imports Complex_Main "HOL-Library.List_Lexorder" "HOL-Library.Char_ord"
begin

section \<open>Conservation scores of a multiple sequence alignment\<close>

text \<open>
  The embedding follows \<^verbatim>\<open>preliminary_analysis.py\<close>. An alignment is the list of
  its records' sequences, each the string \<^verbatim>\<open>str(record.seq)\<close>. A score is the quotient
  of two counts; it is kept as the exact rational, and the threshold \<^verbatim>\<open>0.95\<close> as
  \<open>19/20\<close> (the rounding of the quotient to a binary float is not modelled). The value
  \<open>None\<close> of a score stands for pandas' NaN, the maximum of an empty series.
\<close>

type_synonym alignment = "string list"

type_synonym score = "rat option"

subsection \<open>The data frame\<close>

text \<open>
  \<^verbatim>\<open>pd.DataFrame(sequences)\<close> on a list of rows: the frame is as wide as the longest
  row, and a shorter row is filled with missing cells (\<open>None\<close>).
\<close>

definition frame_width :: "'a list list \<Rightarrow> nat" where
  "frame_width rows = fold max (map length rows) 0"

definition DataFrame :: "'a list list \<Rightarrow> 'a option list list" where
  "DataFrame rows =
     map (\<lambda>r. map Some r @ replicate (frame_width rows - length r) None) rows"

definition applymap :: "('a \<Rightarrow> 'b) \<Rightarrow> 'a list list \<Rightarrow> 'b list list" where
  "applymap f df = map (map f) df"

text \<open>
  The columns of a frame, left to right. Every row of a frame has the frame's width,
  so each cell read here exists.
\<close>

definition columns :: "'a list list \<Rightarrow> 'a list list" where
  "columns df =
     (case df of [] \<Rightarrow> []
      | r # _ \<Rightarrow> map (\<lambda>j. map (\<lambda>row. row ! j) df) [0..<length r])"

definition apply_axis0 :: "('a list \<Rightarrow> 'b) \<Rightarrow> 'a list list \<Rightarrow> 'b list" where
  "apply_axis0 f df = map f (columns df)"

subsection \<open>Scoring one column\<close>

definition valid_amino_acids :: "char list" where
  "valid_amino_acids = ''ACDEFGHIKLMNPQRSTVWY''"

text \<open>
  The cell function of line 22, \<^verbatim>\<open>lambda x: x if x in valid_amino_acids else "-"\<close>;
  a missing cell is not in the list either.
\<close>

definition normalize_cell :: "char option \<Rightarrow> char" where
  "normalize_cell x =
     (case x of None \<Rightarrow> CHR ''-''
      | Some c \<Rightarrow> if c \<in> set valid_amino_acids then c else CHR ''-'')"

text \<open>The share of the cells of a column that hold the symbol \<open>s\<close>.\<close>

definition symbol_frequency :: "'a list \<Rightarrow> 'a \<Rightarrow> rat" where
  "symbol_frequency col s = of_nat (count_list col s) / of_nat (length col)"

text \<open>
  \<^verbatim>\<open>col.value_counts(normalize=True)\<close>: one entry per distinct symbol of the column,
  its count divided by the number of cells. pandas lists the entries by falling count;
  only their maximum is used, so the order of the entries is left as \<open>remdups\<close> gives it.
\<close>

definition value_counts_normalize :: "'a list \<Rightarrow> ('a \<times> rat) list" where
  "value_counts_normalize col = map (\<lambda>s. (s, symbol_frequency col s)) (remdups col)"

fun series_max :: "rat list \<Rightarrow> score" where
  "series_max [] = None"
| "series_max (x # xs) = Some (fold max xs x)"

definition column_score :: "char list \<Rightarrow> score" where
  "column_score col = series_max (map snd (value_counts_normalize col))"

subsection \<open>calculate_conservation_scores\<close>

definition calculate_conservation_scores :: "alignment \<Rightarrow> score list" where
  "calculate_conservation_scores alignment =
     (let sequences = alignment;
          df = DataFrame sequences;
          df = applymap normalize_cell df
      in apply_axis0 column_score df)"

text \<open>The number of columns of the frame: no sequence, no column.\<close>

definition profile_width :: "alignment \<Rightarrow> nat" where
  "profile_width alignment = (if alignment = [] then 0 else frame_width alignment)"

text \<open>The normalized column \<open>j\<close> of an alignment, as the frame holds it.\<close>

definition normalized_column :: "alignment \<Rightarrow> nat \<Rightarrow> char list" where
  "normalized_column alignment j =
     map (\<lambda>r. normalize_cell (if j < length r then Some (r ! j) else None)) alignment"

subsection \<open>Series lookup and the two views of a profile\<close>

datatype py_error = KeyError int | ValueError string | OSError string

text \<open>
  \<^verbatim>\<open>conservation_scores[k]\<close> on the series returned by \<^verbatim>\<open>df.apply\<close>: its index is
  the frame's column labels \<open>0, 1, ..., width - 1\<close>, and an integer key is looked up as
  a label, so a key outside the labels (a negative one too) raises \<^verbatim>\<open>KeyError\<close>.
\<close>

definition series_getitem :: "'a list \<Rightarrow> int \<Rightarrow> py_error + 'a" where
  "series_getitem s k =
     (if 0 \<le> k \<and> k < int (length s) then Inr (s ! nat k) else Inl (KeyError k))"

text \<open>The comparison \<^verbatim>\<open>score > 0.95\<close>; it is false on NaN.\<close>

definition exceeds_threshold :: "score \<Rightarrow> bool" where
  "exceeds_threshold s = (case s of None \<Rightarrow> False | Some v \<Rightarrow> v > 19 / 20)"

text \<open>Line 52, the list comprehension over \<^verbatim>\<open>enumerate(conservation_scores)\<close>.\<close>

definition highly_conserved_rows :: "score list \<Rightarrow> (int \<times> score) list" where
  "highly_conserved_rows conservation_scores =
     map (\<lambda>(i, score). (int i + 1, score))
       (filter (\<lambda>(i, score). exceeds_threshold score) (enumerate 0 conservation_scores))"

text \<open>
  The loop of lines 62 to 67, with the rows collected so far; a failing lookup ends it
  with the exception.
\<close>

fun key_residues_loop ::
  "score list \<Rightarrow> int list \<Rightarrow> (int \<times> score) list \<Rightarrow> py_error + (int \<times> score) list" where
  "key_residues_loop conservation_scores [] results = Inr results"
| "key_residues_loop conservation_scores (pos # positions) results =
     (if pos \<le> int (length conservation_scores) then
        (case series_getitem conservation_scores (pos - 1) of
           Inl e \<Rightarrow> Inl e
         | Inr v \<Rightarrow> key_residues_loop conservation_scores positions (results @ [(pos, v)]))
      else key_residues_loop conservation_scores positions results)"

definition analyze_key_residues :: "alignment \<Rightarrow> int list \<Rightarrow> py_error + (int \<times> score) list" where
  "analyze_key_residues alignment positions =
     (let conservation_scores = calculate_conservation_scores alignment
      in key_residues_loop conservation_scores positions [])"

definition default_positions :: "int list" where
  "default_positions = [285, 417, 447]"

section \<open>The pipeline and its effects\<close>

text \<open>
  What the script does to the outside is kept as the list of its effects, in the order
  they happen. What the outside answers is a parameter, the environment: whether a
  folder exists, what \<^verbatim>\<open>glob\<close> finds, what \<^verbatim>\<open>AlignIO.read\<close> returns or raises on a
  path, and whether creating a directory or opening a file for writing raises
  (\<open>None\<close>: it does not). The script reads only what it did not write (files ending in
  \<^verbatim>\<open>.afa\<close>), so the answers do not depend on its own effects. The drawing calls of
  matplotlib other than \<^verbatim>\<open>savefig\<close> are left out.
\<close>

record env =
  path_exists :: "string \<Rightarrow> bool"
  makedirs :: "string \<Rightarrow> py_error option"
  glob :: "string \<Rightarrow> string list"
  AlignIO_read :: "string \<Rightarrow> py_error + alignment"
  savefig :: "string \<Rightarrow> py_error option"
  open_w :: "string \<Rightarrow> py_error option"

record version_result =
  Version :: string
  MSA_file :: string
  Key_Residues :: "(int \<times> score) list"
  Highly_Conserved :: "(int \<times> score) list"

datatype message =
    Found string nat
  | Analyzing string
  | AnalysisComplete string
  | ErrorAnalyzing string py_error
  | ProcessingVersion string
  | FolderNotFound string
  | CombinedSaved string

datatype content =
    Plot "score list" "(int \<times> score) list"
  | Report string "(int \<times> score) list"
  | Combined "version_result list"

datatype effect = Print message | Mkdir string | Write string content

subsection \<open>Paths\<close>

text \<open>\<^verbatim>\<open>p.rfind(c)\<close>: the last index of \<open>c\<close> in \<open>p\<close>, or \<open>-1\<close>.\<close>

definition rfind :: "string \<Rightarrow> char \<Rightarrow> int" where
  "rfind p c =
     (if c \<in> set p then int (length p) - 1 - int (length (takeWhile (\<lambda>x. x \<noteq> c) (rev p)))
      else - 1)"

definition basename :: "string \<Rightarrow> string" where
  "basename p = drop (nat (rfind p (CHR ''/'') + 1)) p"

text \<open>\<^verbatim>\<open>os.path.join(a, b)\<close> of posixpath.\<close>

definition os_path_join :: "string \<Rightarrow> string \<Rightarrow> string" where
  "os_path_join a b =
     (case b of
        c # _ \<Rightarrow>
          if c = CHR ''/'' then b
          else if a = [] \<or> last a = CHR ''/'' then a @ b
          else a @ ''/'' @ b
      | [] \<Rightarrow> if a = [] \<or> last a = CHR ''/'' then a @ b else a @ ''/'' @ b)"

text \<open>
  \<^verbatim>\<open>os.path.splitext(p)[0]\<close>: the path up to its last dot, when that dot lies in the
  last component and a character other than a dot stands before it there.
\<close>

definition splitext_root :: "string \<Rightarrow> string" where
  "splitext_root p =
     (let sepIndex = rfind p (CHR ''/''); dotIndex = rfind p (CHR ''.'')
      in if dotIndex > sepIndex
            \<and> list_ex (\<lambda>k. p ! nat k \<noteq> CHR ''.'') [sepIndex + 1..dotIndex - 1]
         then take (nat dotIndex) p else p)"

definition combined_output_file :: string where
  "combined_output_file = os_path_join ''results'' ''combined_analysis.tsv''"

subsection \<open>analyze_msa_file\<close>

definition residues_to_highlight :: "int list" where
  "residues_to_highlight = [285, 417, 447]"

text \<open>Lines 35 to 38: the points marked in the plot.\<close>

fun highlight_loop :: "score list \<Rightarrow> int list \<Rightarrow> py_error + (int \<times> score) list" where
  "highlight_loop conservation_scores [] = Inr []"
| "highlight_loop conservation_scores (pos # rest) =
     (if pos \<le> int (length conservation_scores) then
        (case series_getitem conservation_scores (pos - 1) of
           Inl e \<Rightarrow> Inl e
         | Inr v \<Rightarrow>
             (case highlight_loop conservation_scores rest of
                Inl e \<Rightarrow> Inl e
              | Inr points \<Rightarrow> Inr ((pos, v) # points)))
      else highlight_loop conservation_scores rest)"

definition analyze_msa_file ::
  "env \<Rightarrow> string \<Rightarrow> string \<Rightarrow>
     (py_error + (int \<times> score) list \<times> score list) \<times> effect list" where
  "analyze_msa_file E file_path output_dir =
     (case AlignIO_read E file_path of
        Inl e \<Rightarrow> (Inl e, [])
      | Inr alignment \<Rightarrow>
          let conservation_scores = calculate_conservation_scores alignment in
          (case highlight_loop conservation_scores residues_to_highlight of
             Inl e \<Rightarrow> (Inl e, [])
           | Inr points \<Rightarrow>
               (case makedirs E output_dir of
                  Some e \<Rightarrow> (Inl e, [])
                | None \<Rightarrow>
                    let output_plot = os_path_join output_dir
                          (splitext_root (basename file_path) @ ''_conservation.png'')
                    in (case savefig E output_plot of
                          Some e \<Rightarrow> (Inl e, [Mkdir output_dir])
                        | None \<Rightarrow>
                            (Inr (highly_conserved_rows conservation_scores, conservation_scores),
                             [Mkdir output_dir,
                              Write output_plot (Plot conservation_scores points)])))))"

subsection \<open>process_folder\<close>

text \<open>
  Lines 86 to 96 of the \<^verbatim>\<open>try\<close> block, up to the entry that is appended: the first
  exception ends them, with the effects that happened before it.
\<close>

definition analyze_entry ::
  "env \<Rightarrow> string \<Rightarrow> string \<Rightarrow> string \<Rightarrow> (py_error + version_result) \<times> effect list" where
  "analyze_entry E version_name output_dir msa_file =
     (case analyze_msa_file E msa_file output_dir of
        (Inl e, effs) \<Rightarrow> (Inl e, effs)
      | (Inr (highly_conserved, conservation_scores), effs) \<Rightarrow>
          (case AlignIO_read E msa_file of
             Inl e \<Rightarrow> (Inl e, effs)
           | Inr alignment \<Rightarrow>
               (case analyze_key_residues alignment default_positions of
                  Inl e \<Rightarrow> (Inl e, effs)
                | Inr key_residues \<Rightarrow>
                    (Inr \<lparr>Version = version_name, MSA_file = basename msa_file,
                          Key_Residues = key_residues,
                          Highly_Conserved = highly_conserved\<rparr>, effs))))"

text \<open>Lines 98 to 105: the text report of one file.\<close>

definition write_report ::
  "env \<Rightarrow> string \<Rightarrow> string \<Rightarrow> (int \<times> score) list \<Rightarrow> py_error option \<times> effect list" where
  "write_report E output_dir msa_file highly_conserved =
     (let output_file = os_path_join output_dir
            (splitext_root (basename msa_file) @ ''_conserved.txt'')
      in case open_w E output_file of
           Some e \<Rightarrow> (Some e, [])
         | None \<Rightarrow>
             (None, [Write output_file (Report (basename msa_file) highly_conserved),
                     Print (AnalysisComplete output_file)]))"

text \<open>
  One turn of the loop of lines 82 to 108. The entry is appended (line 91) before the
  report is written (line 99); whatever is raised inside the \<^verbatim>\<open>try\<close> block is
  printed by the handler, and the loop goes on.
\<close>

definition process_file ::
  "env \<Rightarrow> string \<Rightarrow> string \<Rightarrow> string \<Rightarrow> version_result list \<Rightarrow>
     version_result list \<times> effect list" where
  "process_file E version_name output_dir msa_file all_results =
     (case analyze_entry E version_name output_dir msa_file of
        (Inl e, effs) \<Rightarrow>
          (all_results,
           Print (Analyzing (basename msa_file)) # effs @ [Print (ErrorAnalyzing msa_file e)])
      | (Inr entry, effs) \<Rightarrow>
          let all_results = all_results @ [entry] in
          (case write_report E output_dir msa_file (Highly_Conserved entry) of
             (Some e, effs') \<Rightarrow>
               (all_results,
                Print (Analyzing (basename msa_file)) # effs @ effs'
                  @ [Print (ErrorAnalyzing msa_file e)])
           | (None, effs') \<Rightarrow>
               (all_results, Print (Analyzing (basename msa_file)) # effs @ effs')))"

fun files_loop ::
  "env \<Rightarrow> string \<Rightarrow> string \<Rightarrow> string list \<Rightarrow> version_result list \<Rightarrow>
     version_result list \<times> effect list" where
  "files_loop E version_name output_dir [] all_results = (all_results, [])"
| "files_loop E version_name output_dir (msa_file # rest) all_results =
     (case process_file E version_name output_dir msa_file all_results of
        (all_results, effs) \<Rightarrow>
          (case files_loop E version_name output_dir rest all_results of
             (all_results, effs') \<Rightarrow> (all_results, effs @ effs')))"

definition process_folder ::
  "env \<Rightarrow> string \<Rightarrow> (py_error + version_result list) \<times> effect list" where
  "process_folder E folder_path =
     (let version_name = basename folder_path;
          output_dir = os_path_join ''results'' version_name
      in case makedirs E output_dir of
           Some e \<Rightarrow> (Inl e, [])
         | None \<Rightarrow>
             let msa_files = glob E (os_path_join folder_path ''*.afa'') in
             (case files_loop E version_name output_dir (sort msa_files) [] of
                (all_results, effs) \<Rightarrow>
                  (Inr all_results,
                   Mkdir output_dir # Print (Found version_name (length msa_files)) # effs)))"

subsection \<open>main\<close>

text \<open>The loop of lines 117 to 123; an exception of process_folder ends it.\<close>

fun versions_loop ::
  "env \<Rightarrow> string list \<Rightarrow> version_result list \<Rightarrow>
     (py_error + version_result list) \<times> effect list" where
  "versions_loop E [] all_version_results = (Inr all_version_results, [])"
| "versions_loop E (version # rest) all_version_results =
     (if path_exists E version then
        (case process_folder E version of
           (Inl e, effs) \<Rightarrow> (Inl e, Print (ProcessingVersion version) # effs)
         | (Inr results, effs) \<Rightarrow>
             (case versions_loop E rest (all_version_results @ results) of
                (r, effs') \<Rightarrow> (r, Print (ProcessingVersion version) # effs @ effs')))
      else
        (case versions_loop E rest all_version_results of
           (r, effs') \<Rightarrow> (r, Print (FolderNotFound version) # effs')))"

definition main :: "env \<Rightarrow> py_error option \<times> effect list" where
  "main E =
     (case makedirs E ''results'' of
        Some e \<Rightarrow> (Some e, [])
      | None \<Rightarrow>
          (case versions_loop E [''v1'', ''v2'', ''v3''] [] of
             (Inl e, effs) \<Rightarrow> (Some e, Mkdir ''results'' # effs)
           | (Inr all_version_results, effs) \<Rightarrow>
               if all_version_results \<noteq> [] then
                 (let output_file = combined_output_file
                  in case open_w E output_file of
                       Some e \<Rightarrow> (Some e, Mkdir ''results'' # effs)
                     | None \<Rightarrow>
                         (None, Mkdir ''results'' # effs
                            @ [Write output_file (Combined all_version_results),
                               Print (CombinedSaved output_file)]))
               else (None, Mkdir ''results'' # effs)))"

subsection \<open>Example environments\<close>

text \<open>
  A run directory with the folder \<^verbatim>\<open>v1\<close> only, holding a well-formed alignment
  \<^verbatim>\<open>a.afa\<close>, a file \<^verbatim>\<open>b.afa\<close> that the reader rejects and a second well-formed
  alignment \<^verbatim>\<open>c.afa\<close>; every directory can be made and every file written.
\<close>

definition example_env :: env where
  "example_env =
     \<lparr>path_exists = (\<lambda>p. p = ''v1''),
      makedirs = (\<lambda>p. None),
      glob = (\<lambda>pattern. if pattern = ''v1/*.afa''
                         then [''v1/c.afa'', ''v1/b.afa'', ''v1/a.afa''] else []),
      AlignIO_read = (\<lambda>p. if p = ''v1/a.afa'' then Inr [''ACDEF'', ''ACDEF'', ''ACDEW'']
                          else if p = ''v1/c.afa'' then Inr [''MKV'', ''MKV'']
                          else Inl (ValueError ''No records found in handle'')),
      savefig = (\<lambda>p. None),
      open_w = (\<lambda>p. None)\<rparr>"

text \<open>The same, but the report of \<^verbatim>\<open>a.afa\<close> cannot be opened for writing.\<close>

definition report_fails_env :: env where
  "report_fails_env =
     example_env\<lparr>open_w := (\<lambda>p. if p = ''results/v1/a_conserved.txt''
                                  then Some (OSError ''Is a directory'') else None)\<rparr>"

text \<open>The same, but the reader rejects every file.\<close>

definition no_alignment_env :: env where
  "no_alignment_env =
     example_env\<lparr>AlignIO_read := (\<lambda>p. Inl (ValueError ''No records found in handle''))\<rparr>"

text \<open>
  The same, but no report can be opened for writing; the combined table can.
\<close>

definition no_report_env :: env where
  "no_report_env =
     example_env\<lparr>open_w := (\<lambda>p. if p = ''results/combined_analysis.tsv'' then None
                                  else Some (OSError ''Permission denied''))\<rparr>"

section \<open>Properties of the scorer\<close>

lemma fold_max_ge: "(a::nat) \<le> fold max xs a"
  by (induction xs arbitrary: a) (auto intro: order_trans [OF max.cobounded2])

lemma fold_max_const:
  "\<forall>x\<in>set xs. x = (w::nat) \<Longrightarrow> fold max xs a = (if xs = [] then a else max w a)"
  by (induction xs arbitrary: a) (auto simp: max.commute max.left_commute)

lemma frame_width_equal:
  assumes "alignment \<noteq> []" and "\<forall>r\<in>set alignment. length r = w"
  shows "frame_width alignment = w"
  using assms fold_max_const [of "map length alignment" w 0]
  by (simp add: frame_width_def)

lemma frame_width_ge: "r \<in> set rows \<Longrightarrow> length r \<le> frame_width rows"
proof -
  have "\<And>a. x \<in> set xs \<Longrightarrow> (x::nat) \<le> fold max xs a" for x xs
  proof (induction xs)
    case Nil
    then show ?case by simp
  next
    case (Cons y ys)
    show ?case
    proof (cases "x = y")
      case True
      then show ?thesis
        using fold_max_ge [of "max y a" ys] by simp
    next
      case False
      with Cons show ?thesis by simp
    qed
  qed
  then show "r \<in> set rows \<Longrightarrow> length r \<le> frame_width rows"
    unfolding frame_width_def by (metis image_eqI list.set_map)
qed

lemma padded_row_nth:
  assumes "length r \<le> w" and "j < w"
  shows "(map Some r @ replicate (w - length r) None) ! j =
           (if j < length r then Some (r ! j) else None)"
  using assms by (simp add: nth_append)

lemma normalized_frame_columns:
  "columns (applymap normalize_cell (DataFrame alignment)) =
     map (normalized_column alignment) [0..<profile_width alignment]"
proof (cases alignment)
  case Nil
  then show ?thesis
    by (simp add: columns_def applymap_def DataFrame_def profile_width_def)
next
  case (Cons r0 rs)
  let ?w = "frame_width alignment"
  have first: "length r0 \<le> ?w"
    using Cons frame_width_ge [of r0 alignment] by simp
  have cell: "map (\<lambda>row. row ! j) (applymap normalize_cell (DataFrame alignment)) =
                normalized_column alignment j" if "j < ?w" for j
  proof -
    have key: "map normalize_cell (map Some r @ replicate (?w - length r) None) ! j =
                 normalize_cell (if j < length r then Some (r ! j) else None)"
      if "r \<in> set alignment" for r
      using frame_width_ge [OF that] \<open>j < ?w\<close> by (simp add: nth_append)
    show ?thesis
      unfolding applymap_def DataFrame_def normalized_column_def map_map comp_def
      by (rule map_cong [OF refl]) (rule key)
  qed
  have "columns (applymap normalize_cell (DataFrame alignment)) =
          map (\<lambda>j. map (\<lambda>row. row ! j) (applymap normalize_cell (DataFrame alignment)))
            [0..<?w]"
    using Cons first by (simp add: columns_def applymap_def DataFrame_def)
  also have "\<dots> = map (normalized_column alignment) [0..<?w]"
    using cell by simp
  finally show ?thesis
    using Cons by (simp add: profile_width_def)
qed

lemma calculate_conservation_scores_columns:
  "calculate_conservation_scores alignment =
     map (\<lambda>j. column_score (normalized_column alignment j)) [0..<profile_width alignment]"
  by (simp add: calculate_conservation_scores_def apply_axis0_def normalized_frame_columns
      comp_def)

lemma length_calculate_conservation_scores:
  "length (calculate_conservation_scores alignment) = profile_width alignment"
  by (simp add: calculate_conservation_scores_columns)

text \<open>
  C5. For every non-empty alignment whose sequences all have the same length, the
  profile returned by calculate_conservation_scores has as many entries as the
  alignment has columns (the common sequence length).
\<close>

theorem profile_length_is_alignment_width:
  assumes "alignment \<noteq> []" and "\<forall>r\<in>set alignment. length r = w"
  shows "length (calculate_conservation_scores alignment) = w"
  using assms frame_width_equal [OF assms]
  by (simp add: length_calculate_conservation_scores profile_width_def)

theorem profile_length_is_alignment_width_witness:
  "[''MKV-'', ''MRVL'', ''MKVL''] \<noteq> []
   \<and> map length [''MKV-'', ''MRVL'', ''MKVL''] = [4, 4, 4]
   \<and> length (calculate_conservation_scores [''MKV-'', ''MRVL'', ''MKVL'']) = 4"
proof -
  have h1: "[''MKV-'', ''MRVL'', ''MKVL''] \<noteq> []"
    by simp
  have h2: "\<forall>r\<in>set [''MKV-'', ''MRVL'', ''MKVL'']. length r = 4"
    by simp
  from profile_length_is_alignment_width [OF h1 h2] show ?thesis
    by simp
qed

subsection \<open>The score of a column\<close>

lemma column_score_Max:
  assumes "col \<noteq> []"
  shows "column_score col = Some (Max (symbol_frequency col ` set col))"
proof -
  from assms have "remdups col \<noteq> []" by simp
  then obtain x xs where split: "remdups col = x # xs"
    by (cases "remdups col") auto
  have "column_score col =
          Some (fold max (map (symbol_frequency col) xs) (symbol_frequency col x))"
    by (simp add: column_score_def value_counts_normalize_def split comp_def)
  also have "\<dots> = Some (Max (set (map (symbol_frequency col) (x # xs))))"
    by (simp only: list.map Max.set_eq_fold)
  also have "set (map (symbol_frequency col) (x # xs)) = symbol_frequency col ` set col"
    using split by (metis set_map set_remdups)
  finally show ?thesis .
qed

lemma count_list_all_same: "\<forall>x\<in>set xs. x = c \<Longrightarrow> count_list xs c = length xs"
  by (induction xs) auto

lemma count_list_distinct: "distinct xs \<Longrightarrow> x \<in> set xs \<Longrightarrow> count_list xs x = 1"
  by (induction xs) (auto simp: count_list_0_iff)

lemma column_score_constant:
  assumes "col \<noteq> []" and "\<forall>x\<in>set col. x = c"
  shows "column_score col = Some 1"
proof -
  from assms have "set col = {c}"
    by (cases col) auto
  moreover have "symbol_frequency col c = 1"
    using assms by (simp add: symbol_frequency_def count_list_all_same)
  ultimately show ?thesis
    by (simp add: column_score_Max [OF assms(1)])
qed

lemma column_score_distinct:
  assumes "col \<noteq> []" and "distinct col"
  shows "column_score col = Some (1 / of_nat (length col))"
proof -
  have eq: "symbol_frequency col s = 1 / of_nat (length col)" if "s \<in> set col" for s
    using that assms(2) by (simp add: symbol_frequency_def count_list_distinct)
  obtain a where "a \<in> set col"
    using assms(1) by (cases col) auto
  with eq have "symbol_frequency col ` set col = {1 / of_nat (length col)}"
    by (auto simp: image_iff)
  then show ?thesis
    by (simp add: column_score_Max [OF assms(1)])
qed

lemma column_score_ge:
  assumes "s \<in> set col"
  shows "\<exists>v. column_score col = Some v \<and> symbol_frequency col s \<le> v"
proof -
  from assms have "col \<noteq> []" by auto
  then show ?thesis
    using assms by (simp add: column_score_Max)
qed

lemma normalized_column_nonempty:
  "alignment \<noteq> [] \<Longrightarrow> normalized_column alignment j \<noteq> []"
  by (simp add: normalized_column_def)

lemma profile_nth:
  "j < profile_width alignment \<Longrightarrow>
     calculate_conservation_scores alignment ! j = column_score (normalized_column alignment j)"
  by (simp add: calculate_conservation_scores_columns)

lemma profile_width_nonempty: "j < profile_width alignment \<Longrightarrow> alignment \<noteq> []"
  by (auto simp: profile_width_def)

lemma highly_conserved_member:
  assumes "j < length p" and "exceeds_threshold (p ! j)"
  shows "(int j + 1, p ! j) \<in> set (highly_conserved_rows p)"
proof -
  have "(j, p ! j) \<in> set (enumerate 0 p)"
    using assms(1) by (simp add: in_set_enumerate_eq)
  with assms(2) show ?thesis
    by (force simp: highly_conserved_rows_def)
qed

text \<open>
  C3. For every non-empty alignment and every column at which all sequences carry
  the same symbol, calculate_conservation_scores reports the score 1 for that column.
\<close>

theorem identical_column_scores_one:
  assumes "alignment \<noteq> []" and "\<forall>r\<in>set alignment. j < length r \<and> r ! j = c"
  shows "calculate_conservation_scores alignment ! j = Some 1"
proof -
  obtain r where "r \<in> set alignment"
    using assms(1) by (cases alignment) auto
  with assms(2) have "j < length r" by simp
  with \<open>r \<in> set alignment\<close> have "j < profile_width alignment"
    using frame_width_ge [of r alignment] assms(1) by (simp add: profile_width_def)
  moreover have "\<forall>x\<in>set (normalized_column alignment j). x = normalize_cell (Some c)"
    using assms(2) by (auto simp: normalized_column_def)
  ultimately show ?thesis
    using column_score_constant [OF normalized_column_nonempty [OF assms(1)]]
    by (simp add: profile_nth)
qed

theorem identical_column_scores_one_witness:
  "[''AC-F'', ''AC-F'', ''AC-F''] \<noteq> []
   \<and> map (\<lambda>r. r ! 2) [''AC-F'', ''AC-F'', ''AC-F''] = ''---''
   \<and> calculate_conservation_scores [''AC-F'', ''AC-F'', ''AC-F''] ! 2 = Some 1"
proof -
  have h1: "[''AC-F'', ''AC-F'', ''AC-F''] \<noteq> []"
    by simp
  have h2: "\<forall>r\<in>set [''AC-F'', ''AC-F'', ''AC-F'']. 2 < length r \<and> r ! 2 = CHR ''-''"
    by simp
  from identical_column_scores_one [OF h1 h2] show ?thesis
    by simp
qed

text \<open>
  C4. For the alignment of the three identical sequences "ACDEF" the conservation
  profile is five times 1, the highly-conserved list is (1,1), (2,1), (3,1), (4,1),
  (5,1), and the key-residue table for the positions 285, 417 and 447 is empty, all
  three lying beyond the length 5.
\<close>

theorem three_identical_sequences_scenario:
  "calculate_conservation_scores [''ACDEF'', ''ACDEF'', ''ACDEF'']
     = [Some 1, Some 1, Some 1, Some 1, Some 1]
   \<and> highly_conserved_rows (calculate_conservation_scores [''ACDEF'', ''ACDEF'', ''ACDEF''])
     = [(1, Some 1), (2, Some 1), (3, Some 1), (4, Some 1), (5, Some 1)]
   \<and> analyze_key_residues [''ACDEF'', ''ACDEF'', ''ACDEF''] default_positions = Inr []"
  by code_simp

text \<open>
  C1. Every symbol outside the 20-letter alphabet is replaced by the gap marker before
  the counting, and the score of a column is the largest share (its count divided by
  the number of sequences) that one symbol of the normalized column has, the gap marker
  being a symbol like any other. So a column of non-canonical symbols only scores 1, and a column whose share of
  gaps after normalization exceeds 95 percent is listed as highly conserved.
\<close>

theorem gap_marker_counts_as_symbol:
  assumes "j < profile_width alignment"
  shows "columns (applymap normalize_cell (DataFrame alignment)) ! j =
           map (\<lambda>r. if j < length r \<and> r ! j \<in> set valid_amino_acids then r ! j else CHR ''-'')
             alignment
         \<and> calculate_conservation_scores alignment ! j =
             Some (Max (symbol_frequency (normalized_column alignment j)
                          ` set (normalized_column alignment j)))
         \<and> symbol_frequency (normalized_column alignment j) s =
             of_nat (count_list (normalized_column alignment j) s) / of_nat (length alignment)
         \<and> ((\<forall>r\<in>set alignment. j < length r \<longrightarrow> r ! j \<notin> set valid_amino_acids) \<longrightarrow>
              calculate_conservation_scores alignment ! j = Some 1)
         \<and> (19 / 20 < symbol_frequency (normalized_column alignment j) (CHR ''-'') \<longrightarrow>
              (int j + 1, calculate_conservation_scores alignment ! j)
                \<in> set (highly_conserved_rows (calculate_conservation_scores alignment)))"
proof -
  let ?col = "normalized_column alignment j"
  let ?p = "calculate_conservation_scores alignment"
  have ne: "?col \<noteq> []"
    using assms by (simp add: normalized_column_nonempty profile_width_nonempty)
  have c1: "columns (applymap normalize_cell (DataFrame alignment)) ! j =
              map (\<lambda>r. if j < length r \<and> r ! j \<in> set valid_amino_acids then r ! j
                       else CHR ''-'') alignment"
    using assms
    by (auto simp: normalized_frame_columns normalized_column_def normalize_cell_def)
  have c2: "?p ! j = Some (Max (symbol_frequency ?col ` set ?col))"
    using assms by (simp add: profile_nth column_score_Max [OF ne])
  have c3: "?p ! j = Some 1"
    if "\<forall>r\<in>set alignment. j < length r \<longrightarrow> r ! j \<notin> set valid_amino_acids"
  proof -
    have "\<forall>x\<in>set ?col. x = CHR ''-''"
      using that by (auto simp: normalized_column_def normalize_cell_def)
    then show ?thesis
      using assms column_score_constant [OF ne] by (simp add: profile_nth)
  qed
  have c4: "(int j + 1, ?p ! j) \<in> set (highly_conserved_rows ?p)"
    if gaps: "19 / 20 < symbol_frequency ?col (CHR ''-'')"
  proof -
    have "CHR ''-'' \<in> set ?col"
    proof (rule ccontr)
      assume "CHR ''-'' \<notin> set ?col"
      then have "symbol_frequency ?col (CHR ''-'') = 0"
        by (simp add: symbol_frequency_def count_list_0_iff)
      with gaps show False by simp
    qed
    from column_score_ge [OF this] obtain v
      where v: "column_score ?col = Some v" "symbol_frequency ?col (CHR ''-'') \<le> v"
      by blast
    with gaps have "exceeds_threshold (?p ! j)"
      using assms by (simp add: profile_nth exceeds_threshold_def)
    moreover have "j < length ?p"
      using assms by (simp add: length_calculate_conservation_scores)
    ultimately show ?thesis
      by (rule highly_conserved_member [rotated])
  qed
  have c5: "symbol_frequency ?col s = of_nat (count_list ?col s) / of_nat (length alignment)"
    by (simp add: symbol_frequency_def normalized_column_def)
  from c1 c2 c3 c4 c5 show ?thesis
    by blast
qed

theorem gap_marker_counts_as_symbol_witness:
  "0 < profile_width [''-K'', ''XK'', ''.R'']
   \<and> map (\<lambda>r. r ! 0 \<in> set valid_amino_acids) [''-K'', ''XK'', ''.R''] = [False, False, False]
   \<and> 19 / 20 < symbol_frequency (normalized_column [''-K'', ''XK'', ''.R''] 0) (CHR ''-'')
   \<and> columns (applymap normalize_cell (DataFrame [''-K'', ''XK'', ''.R''])) ! 0 = ''---''
   \<and> calculate_conservation_scores [''-K'', ''XK'', ''.R''] ! 0 = Some 1
   \<and> (1, Some 1) \<in> set (highly_conserved_rows (calculate_conservation_scores [''-K'', ''XK'', ''.R'']))"
proof -
  have h1: "0 < profile_width [''-K'', ''XK'', ''.R'']"
    by code_simp
  have h2: "\<forall>r\<in>set [''-K'', ''XK'', ''.R'']. 0 < length r \<longrightarrow> r ! 0 \<notin> set valid_amino_acids"
    by (simp add: valid_amino_acids_def)
  have h3: "19 / 20 < symbol_frequency (normalized_column [''-K'', ''XK'', ''.R''] 0) (CHR ''-'')"
    by code_simp
  have v: "map (\<lambda>r. if 0 < length r \<and> r ! 0 \<in> set valid_amino_acids then r ! 0 else CHR ''-'')
             [''-K'', ''XK'', ''.R''] = ''---''"
    by (simp add: valid_amino_acids_def)
  note T = gap_marker_counts_as_symbol [OF h1]
  from T have "columns (applymap normalize_cell (DataFrame [''-K'', ''XK'', ''.R''])) ! 0 =
      map (\<lambda>r. if 0 < length r \<and> r ! 0 \<in> set valid_amino_acids then r ! 0 else CHR ''-'')
        [''-K'', ''XK'', ''.R'']"
    by (rule conjunct1)
  with v have a: "columns (applymap normalize_cell (DataFrame [''-K'', ''XK'', ''.R''])) ! 0
                    = ''---''"
    by (simp only:)
  from T h2 have s1: "calculate_conservation_scores [''-K'', ''XK'', ''.R''] ! 0 = Some 1"
    by blast
  from T h3 have "(int 0 + 1, calculate_conservation_scores [''-K'', ''XK'', ''.R''] ! 0)
      \<in> set (highly_conserved_rows (calculate_conservation_scores [''-K'', ''XK'', ''.R'']))"
    by blast
  with s1 have hc: "(1, Some 1)
      \<in> set (highly_conserved_rows (calculate_conservation_scores [''-K'', ''XK'', ''.R'']))"
    by simp
  have h2': "map (\<lambda>r. r ! 0 \<in> set valid_amino_acids) [''-K'', ''XK'', ''.R'']
               = [False, False, False]"
    by (simp add: valid_amino_acids_def)
  from h1 h2' h3 a s1 hc show ?thesis
    by blast
qed

text \<open>
  C2, as the claim states it, fails: the symbols A, X and the gap marker are pairwise
  distinct, but X is normalized to the gap marker, so the gap marker is counted twice
  and the column of three sequences scores 2/3, not 1/3.
\<close>

theorem distinct_symbols_counterexample:
  "distinct [''MA'' ! 1, ''MX'' ! 1, ''M-'' ! 1]
   \<and> calculate_conservation_scores [''MA'', ''MX'', ''M-''] ! 1 = Some (2 / 3)
   \<and> Some (2 / 3) \<noteq> Some (1 / rat_of_nat (length [''MA'', ''MX'', ''M-'']))"
  by code_simp

lemma distinct_after_normalization:
  assumes "distinct col" and "length (filter (\<lambda>c. c \<notin> set valid_amino_acids) col) \<le> 1"
  shows "distinct (map (\<lambda>c. normalize_cell (Some c)) col)"
  using assms
proof (induction col)
  case Nil
  then show ?case by simp
next
  case (Cons x xs)
  have gap: "CHR ''-'' \<notin> set valid_amino_acids"
    by (simp add: valid_amino_acids_def)
  have tail: "distinct (map (\<lambda>c. normalize_cell (Some c)) xs)"
    using Cons by (simp split: if_splits)
  have "normalize_cell (Some x) \<noteq> normalize_cell (Some y)" if "y \<in> set xs" for y
  proof (cases "x \<in> set valid_amino_acids")
    case True
    with that Cons.prems(1) gap show ?thesis
      by (auto simp: normalize_cell_def)
  next
    case False
    with Cons.prems(2) have "filter (\<lambda>c. c \<notin> set valid_amino_acids) xs = []"
      by simp
    with that have "y \<in> set valid_amino_acids"
      by (auto simp: filter_empty_conv)
    with False gap show ?thesis
      by (auto simp: normalize_cell_def)
  qed
  with tail show ?case by auto
qed

text \<open>
  C2, amended. For every alignment of n sequences and every column at which the n
  sequences carry n pairwise distinct symbols, at most one of them outside the
  20-letter alphabet, calculate_conservation_scores reports the score 1/n for that
  column.
\<close>

theorem distinct_column_scores_reciprocal:
  assumes "alignment \<noteq> []"
    and "\<forall>r\<in>set alignment. j < length r"
    and "distinct (map (\<lambda>r. r ! j) alignment)"
    and "length (filter (\<lambda>r. r ! j \<notin> set valid_amino_acids) alignment) \<le> 1"
  shows "calculate_conservation_scores alignment ! j = Some (1 / of_nat (length alignment))"
proof -
  obtain r where "r \<in> set alignment"
    using assms(1) by (cases alignment) auto
  with assms(2) have "j < profile_width alignment"
    using frame_width_ge [of r alignment] assms(1) by (auto simp: profile_width_def)
  moreover have col: "normalized_column alignment j =
      map (\<lambda>c. normalize_cell (Some c)) (map (\<lambda>r. r ! j) alignment)"
    using assms(2) by (simp add: normalized_column_def)
  have "length (filter (\<lambda>c. c \<notin> set valid_amino_acids) (map (\<lambda>r. r ! j) alignment)) \<le> 1"
    using assms(4) by (simp add: filter_map comp_def)
  with assms(3) have "distinct (normalized_column alignment j)"
    unfolding col by (rule distinct_after_normalization)
  moreover have "length (normalized_column alignment j) = length alignment"
    by (simp add: normalized_column_def)
  ultimately show ?thesis
    using column_score_distinct [OF normalized_column_nonempty [OF assms(1)], of j]
    by (simp add: profile_nth)
qed

theorem distinct_column_scores_reciprocal_witness:
  "[''MA'', ''MC'', ''M-''] \<noteq> []
   \<and> map length [''MA'', ''MC'', ''M-''] = [2, 2, 2]
   \<and> distinct (map (\<lambda>r. r ! 1) [''MA'', ''MC'', ''M-''])
   \<and> length (filter (\<lambda>r. r ! 1 \<notin> set valid_amino_acids) [''MA'', ''MC'', ''M-'']) \<le> 1
   \<and> calculate_conservation_scores [''MA'', ''MC'', ''M-''] ! 1 = Some (1 / 3)"
proof -
  have h1: "[''MA'', ''MC'', ''M-''] \<noteq> []"
    by simp
  have h2: "\<forall>r\<in>set [''MA'', ''MC'', ''M-'']. 1 < length r"
    by simp
  have h3: "distinct (map (\<lambda>r. r ! 1) [''MA'', ''MC'', ''M-''])"
    by simp
  have h4: "length (filter (\<lambda>r. r ! 1 \<notin> set valid_amino_acids) [''MA'', ''MC'', ''M-'']) \<le> 1"
    by (simp add: valid_amino_acids_def)
  from distinct_column_scores_reciprocal [OF h1 h2 h3 h4]
  have "calculate_conservation_scores [''MA'', ''MC'', ''M-''] ! 1 = Some (1 / 3)"
    by simp
  with h1 h3 h4 show ?thesis
    by simp
qed

section \<open>Properties of the two views\<close>

lemma series_getitem_in_range:
  "1 \<le> p \<Longrightarrow> p \<le> int (length s) \<Longrightarrow> series_getitem s (p - 1) = Inr (s ! nat (p - 1))"
  by (simp add: series_getitem_def)

lemma key_residues_loop_rows:
  assumes "\<forall>p\<in>set positions. 1 \<le> p"
  shows "key_residues_loop s positions results =
           Inr (results @ map (\<lambda>p. (p, s ! nat (p - 1)))
                  (filter (\<lambda>p. p \<le> int (length s)) positions))"
  using assms
  by (induction positions arbitrary: results) (simp_all add: series_getitem_in_range)

lemma key_residues_loop_raises:
  assumes "p \<in> set positions" and "p < 1"
  shows "\<exists>q\<in>set positions. q < 1 \<and> key_residues_loop s positions results = Inl (KeyError (q - 1))"
  using assms
proof (induction positions arbitrary: results)
  case Nil
  then show ?case by simp
next
  case (Cons x xs)
  show ?case
  proof (cases "x < 1")
    case True
    then have "key_residues_loop s (x # xs) results = Inl (KeyError (x - 1))"
      by (simp add: series_getitem_def)
    with True show ?thesis by auto
  next
    case False
    with Cons.prems have "p \<in> set xs" by auto
    from Cons.IH [OF this Cons.prems(2)] False show ?thesis
      by (auto simp: series_getitem_in_range)
  qed
qed

lemma enumerate_nth: "enumerate 0 p = map (\<lambda>i. (i, p ! i)) [0..<length p]"
  by (rule nth_equalityI) (simp_all add: nth_enumerate_eq)

lemma highly_conserved_rows_filter:
  "highly_conserved_rows p =
     map (\<lambda>i. (int i + 1, p ! i)) (filter (\<lambda>i. exceeds_threshold (p ! i)) [0..<length p])"
  by (simp add: highly_conserved_rows_def enumerate_nth filter_map comp_def)

lemma highly_conserved_rows_ascending:
  "sorted_wrt (<) (map fst (highly_conserved_rows p))"
proof -
  have rel: "(\<lambda>x y. int x + 1 < int y + 1) = ((<) :: nat \<Rightarrow> nat \<Rightarrow> bool)"
    by (intro ext) arith
  have "sorted_wrt (<) (filter (\<lambda>i. exceeds_threshold (p ! i)) [0..<length p])"
    by (rule sorted_wrt_filter) simp
  then show ?thesis
    by (simp only: highly_conserved_rows_filter map_map comp_def fst_conv sorted_wrt_map rel)
qed

lemma highly_conserved_rows_all:
  "\<forall>s\<in>set p. exceeds_threshold s \<Longrightarrow> length (highly_conserved_rows p) = length p"
  by (simp add: highly_conserved_rows_filter)

lemma analyze_msa_file_rows:
  "fst (analyze_msa_file E f od) = Inr (hc, p) \<Longrightarrow> hc = highly_conserved_rows p"
  by (auto simp: analyze_msa_file_def Let_def split: sum.splits option.splits)

text \<open>
  C6, as the claim states it, fails: the position 0 is at most the profile length 3,
  yet no row is emitted for it; the lookup at the label -1 raises KeyError and the
  rows of the positions 2 and 3 are lost with it.
\<close>

theorem key_residues_position_zero_counterexample:
  "0 \<le> int (length (calculate_conservation_scores [''ACD'', ''ACD'']))
   \<and> analyze_key_residues [''ACD'', ''ACD''] [2, 0, 3] = Inl (KeyError (- 1))"
  by code_simp

text \<open>
  C6, amended. For every profile and every list of configured positions that are all
  at least 1, analyze_key_residues emits a (position, score) row exactly for each
  input position that is at most the profile length, in the order of the input, and
  skips the positions beyond the profile length without an error; with the positions
  285, 417, 447 and a profile of length 400 only the position 285 appears.
\<close>

theorem key_residue_rows_in_input_order:
  assumes "\<forall>p\<in>set positions. 1 \<le> p"
  shows "analyze_key_residues alignment positions =
           Inr (map (\<lambda>p. (p, calculate_conservation_scores alignment ! nat (p - 1)))
                  (filter (\<lambda>p. p \<le> int (length (calculate_conservation_scores alignment)))
                     positions))
         \<and> (length (calculate_conservation_scores alignment) = 400 \<longrightarrow>
              analyze_key_residues alignment default_positions =
                Inr [(285, calculate_conservation_scores alignment ! 284)])"
proof -
  have "\<forall>p\<in>set default_positions. 1 \<le> p"
    by (simp add: default_positions_def)
  then have "analyze_key_residues alignment default_positions =
               Inr [(285, calculate_conservation_scores alignment ! 284)]"
    if "length (calculate_conservation_scores alignment) = 400"
    using that
    by (simp add: analyze_key_residues_def key_residues_loop_rows)
       (simp add: default_positions_def)
  with assms show ?thesis
    by (simp add: analyze_key_residues_def key_residues_loop_rows Let_def)
qed

theorem key_residue_rows_in_input_order_witness:
  "list_all (\<lambda>p. 1 \<le> p) [447, 285, 417 :: int]
   \<and> length (calculate_conservation_scores [replicate 400 (CHR ''A'')]) = 400
   \<and> analyze_key_residues [replicate 400 (CHR ''A'')] [447, 285, 417] =
       Inr [(285, calculate_conservation_scores [replicate 400 (CHR ''A'')] ! 284)]
   \<and> analyze_key_residues [replicate 400 (CHR ''A'')] default_positions =
       Inr [(285, calculate_conservation_scores [replicate 400 (CHR ''A'')] ! 284)]"
proof -
  have h1: "\<forall>p\<in>set [447, 285, 417 :: int]. 1 \<le> p"
    by simp
  have h2: "length (calculate_conservation_scores [replicate 400 (CHR ''A'')]) = 400"
    by (simp add: length_calculate_conservation_scores profile_width_def frame_width_def)
  from key_residue_rows_in_input_order [OF h1, of "[replicate 400 (CHR ''A'')]"] h2
  show ?thesis
    by simp
qed

text \<open>
  C10. analyze_key_residues checks a position against the profile length only; a
  position below 1 passes that check, and the function then looks the profile up at
  position - 1, a negative label, instead of omitting the row: the call ends with the
  KeyError of the first such position.
\<close>

theorem key_residues_lower_bound_unchecked:
  assumes "p \<in> set positions" and "p < 1"
  shows "\<exists>q\<in>set positions. q < 1
           \<and> q \<le> int (length (calculate_conservation_scores alignment))
           \<and> q - 1 < 0
           \<and> analyze_key_residues alignment positions = Inl (KeyError (q - 1))"
proof -
  from key_residues_loop_raises [OF assms] obtain q
    where "q \<in> set positions" "q < 1"
      "key_residues_loop (calculate_conservation_scores alignment) positions [] =
         Inl (KeyError (q - 1))"
    by blast
  then show ?thesis
    by (auto simp: analyze_key_residues_def)
qed

theorem key_residues_lower_bound_unchecked_witness:
  "(0::int) \<in> set [2, 0, 5] \<and> (0::int) < 1
   \<and> analyze_key_residues [''ACD'', ''ACE''] [2, 0, 5] = Inl (KeyError (- 1))"
proof -
  have h1: "(0::int) \<in> set [2, 0, 5]"
    by simp
  have h2: "(0::int) < 1"
    by simp
  from key_residues_lower_bound_unchecked [OF h1 h2, of "[''ACD'', ''ACE'']"]
  have "analyze_key_residues [''ACD'', ''ACE''] [2, 0, 5] = Inl (KeyError (- 1))"
    by auto
  with h1 h2 show ?thesis
    by simp
qed

text \<open>
  C7. The highly-conserved list that analyze_msa_file returns is a function of the
  profile it returns with it, so two extractions from the same profile give the same
  ordered list. The list holds exactly the pairs (position counted from 1, score) whose
  score is strictly greater than 0.95, by ascending position, and nothing caps its
  length: a profile whose scores all exceed the threshold is listed whole.
\<close>

theorem highly_conserved_extraction:
  "(fst (analyze_msa_file E file_path output_dir) = Inr (hc, p) \<longrightarrow>
      fst (analyze_msa_file E' file_path' output_dir') = Inr (hc', p) \<longrightarrow>
      hc = highly_conserved_rows p \<and> hc' = hc)
   \<and> highly_conserved_rows p =
       map (\<lambda>i. (int i + 1, p ! i)) (filter (\<lambda>i. exceeds_threshold (p ! i)) [0..<length p])
   \<and> (exceeds_threshold s \<longleftrightarrow> (\<exists>v. s = Some v \<and> 19 / 20 < v))
   \<and> sorted_wrt (<) (map fst (highly_conserved_rows p))
   \<and> ((\<forall>s\<in>set p. exceeds_threshold s) \<longrightarrow> length (highly_conserved_rows p) = length p)"
proof -
  have "exceeds_threshold s \<longleftrightarrow> (\<exists>v. s = Some v \<and> 19 / 20 < v)"
    by (cases s) (simp_all add: exceeds_threshold_def)
  then show ?thesis
    using analyze_msa_file_rows [of E file_path output_dir hc p]
      analyze_msa_file_rows [of E' file_path' output_dir' hc' p]
      highly_conserved_rows_filter [of p] highly_conserved_rows_ascending [of p]
      highly_conserved_rows_all [of p]
    by blast
qed

theorem highly_conserved_extraction_witness:
  "fst (analyze_msa_file example_env ''v1/c.afa'' ''results/v1'')
     = Inr ([(1, Some 1), (2, Some 1), (3, Some 1)], [Some 1, Some 1, Some 1])
   \<and> fst (analyze_msa_file no_alignment_env ''v1/c.afa'' ''out'')
       = Inl (ValueError ''No records found in handle'')
   \<and> list_all exceeds_threshold [Some 1, Some 1, Some 1]
   \<and> highly_conserved_rows [Some 1, Some 1, Some 1] = [(1, Some 1), (2, Some 1), (3, Some 1)]
   \<and> length (highly_conserved_rows [Some 1, Some 1, Some 1]) = length [Some (1::rat), Some 1, Some 1]"
proof -
  have run: "fst (analyze_msa_file example_env ''v1/c.afa'' ''results/v1'')
     = Inr ([(1, Some 1), (2, Some 1), (3, Some 1)], [Some 1, Some 1, Some 1])"
    by code_simp
  have other: "fst (analyze_msa_file no_alignment_env ''v1/c.afa'' ''out'')
       = Inl (ValueError ''No records found in handle'')"
    by code_simp
  have all: "\<forall>s\<in>set [Some 1, Some 1, Some 1]. exceeds_threshold s"
    by (simp add: exceeds_threshold_def)
  note T = highly_conserved_extraction [of example_env "''v1/c.afa''" "''results/v1''"
      "[(1, Some 1), (2, Some 1), (3, Some 1)]" "[Some 1, Some 1, Some 1]"
      example_env "''v1/c.afa''" "''results/v1''" "[(1, Some 1), (2, Some 1), (3, Some 1)]"]
  from T run have rows: "[(1, Some 1), (2, Some 1), (3, Some 1)] =
      highly_conserved_rows [Some 1, Some 1, Some 1]"
    by blast
  from T all have len: "length (highly_conserved_rows [Some 1, Some 1, Some 1])
      = length [Some (1::rat), Some 1, Some 1]"
    by blast
  from run other all rows len show ?thesis
    by (simp only: list_all_iff simp_thms)
qed

section \<open>Properties of the folder loop\<close>

lemma process_file_results:
  "fst (process_file E vn od f acc) =
     acc @ (case fst (analyze_entry E vn od f) of Inl e \<Rightarrow> [] | Inr entry \<Rightarrow> [entry])"
  by (auto simp: process_file_def Let_def split: prod.splits sum.splits option.splits)

lemma process_file_announced:
  "Print (Analyzing (basename f)) \<in> set (snd (process_file E vn od f acc))"
  by (auto simp: process_file_def Let_def split: prod.splits sum.splits option.splits)

lemma process_file_analysis_error:
  "fst (analyze_entry E vn od f) = Inl e \<Longrightarrow>
     Print (ErrorAnalyzing f e) \<in> set (snd (process_file E vn od f acc))"
  by (auto simp: process_file_def Let_def split: prod.splits sum.splits option.splits)

lemma process_file_report_error:
  "fst (analyze_entry E vn od f) = Inr entry \<Longrightarrow>
   fst (write_report E od f (Highly_Conserved entry)) = Some e \<Longrightarrow>
     Print (ErrorAnalyzing f e) \<in> set (snd (process_file E vn od f acc))"
  by (auto simp: process_file_def Let_def split: prod.splits sum.splits option.splits)

lemma files_loop_results:
  "fst (files_loop E vn od files acc) =
     acc @ concat (map (\<lambda>f. case fst (analyze_entry E vn od f) of
                               Inl e \<Rightarrow> [] | Inr entry \<Rightarrow> [entry]) files)"
proof (induction files arbitrary: acc)
  case Nil
  then show ?case by simp
next
  case (Cons f files)
  obtain rs effs where step: "process_file E vn od f acc = (rs, effs)"
    by (cases "process_file E vn od f acc")
  obtain rs' effs' where rest: "files_loop E vn od files rs = (rs', effs')"
    by (cases "files_loop E vn od files rs")
  from step have "rs = acc @ (case fst (analyze_entry E vn od f) of
                               Inl e \<Rightarrow> [] | Inr entry \<Rightarrow> [entry])"
    using process_file_results [of E vn od f acc] by simp
  moreover from rest have "rs' = rs @ concat (map (\<lambda>f. case fst (analyze_entry E vn od f) of
                               Inl e \<Rightarrow> [] | Inr entry \<Rightarrow> [entry]) files)"
    using Cons.IH [of rs] by simp
  ultimately show ?case
    using step rest by simp
qed

lemma files_loop_effects:
  assumes "f \<in> set files" and "\<And>acc. x \<in> set (snd (process_file E vn od f acc))"
  shows "x \<in> set (snd (files_loop E vn od files acc))"
  using assms(1)
proof (induction files arbitrary: acc)
  case Nil
  then show ?case by simp
next
  case (Cons g files)
  obtain rs effs where step: "process_file E vn od g acc = (rs, effs)"
    by (cases "process_file E vn od g acc")
  obtain rs' effs' where rest: "files_loop E vn od files rs = (rs', effs')"
    by (cases "files_loop E vn od files rs")
  show ?case
  proof (cases "f = g")
    case True
    with assms(2) [of acc] step rest show ?thesis by simp
  next
    case False
    with Cons.prems have "f \<in> set files" by simp
    from Cons.IH [OF this, of rs] step rest show ?thesis by simp
  qed
qed


lemma analyze_entry_unreadable:
  "AlignIO_read E f = Inl e \<Longrightarrow> fst (analyze_entry E vn od f) = Inl e"
  by (simp add: analyze_entry_def analyze_msa_file_def)

text \<open>
  C8, as the claim states it, fails in its last part: the entry of a file is appended
  before its report is written, so when opening the report of \<^verbatim>\<open>a.afa\<close> raises, the
  failure is caught and logged as an error analyzing that file, and the entry of
  \<^verbatim>\<open>a.afa\<close> is in the accumulated results all the same.
\<close>

theorem report_failure_keeps_entry_counterexample:
  "Print (ErrorAnalyzing ''v1/a.afa'' (OSError ''Is a directory''))
     \<in> set (snd (process_folder report_fails_env ''v1''))
   \<and> fst (process_folder report_fails_env ''v1'') =
       Inr [\<lparr>Version = ''v1'', MSA_file = ''a.afa'', Key_Residues = [],
              Highly_Conserved = [(1, Some 1), (2, Some 1), (3, Some 1), (4, Some 1)]\<rparr>,
            \<lparr>Version = ''v1'', MSA_file = ''c.afa'', Key_Residues = [],
              Highly_Conserved = [(1, Some 1), (2, Some 1), (3, Some 1)]\<rparr>]"
  by code_simp

text \<open>
  C8, amended. During folder processing, any failure raised while analyzing a single
  alignment file is caught and logged, and processing continues with the next file:
  one bad file never aborts the batch, and a file whose failure is raised before its
  entry is appended (while it is read, scored, plotted or its key residues are
  extracted; an unreadable file is such a file) contributes no entry to the accumulated
  results.
\<close>

theorem file_failures_are_isolated:
  fixes E :: env and folder_path :: string
  defines "version_name \<equiv> basename folder_path"
  defines "output_dir \<equiv> os_path_join ''results'' version_name"
  defines "files \<equiv> sort (glob E (os_path_join folder_path ''*.afa''))"
  assumes "makedirs E output_dir = None"
  shows "\<exists>effs. process_folder E folder_path =
           (Inr (concat (map (\<lambda>f. case fst (analyze_entry E version_name output_dir f) of
                                     Inl e \<Rightarrow> [] | Inr entry \<Rightarrow> [entry]) files)), effs)
         \<and> (\<forall>f\<in>set files. Print (Analyzing (basename f)) \<in> set effs)
         \<and> (\<forall>f\<in>set files. \<forall>e. AlignIO_read E f = Inl e \<longrightarrow>
               fst (analyze_entry E version_name output_dir f) = Inl e)
         \<and> (\<forall>f\<in>set files. \<forall>e. fst (analyze_entry E version_name output_dir f) = Inl e \<longrightarrow>
               Print (ErrorAnalyzing f e) \<in> set effs)
         \<and> (\<forall>f\<in>set files. \<forall>entry e.
               fst (analyze_entry E version_name output_dir f) = Inr entry \<longrightarrow>
               fst (write_report E output_dir f (Highly_Conserved entry)) = Some e \<longrightarrow>
               Print (ErrorAnalyzing f e) \<in> set effs)"
proof -
  obtain rs effs where loop: "files_loop E version_name output_dir files [] = (rs, effs)"
    by (cases "files_loop E version_name output_dir files []")
  let ?effs = "Mkdir output_dir
      # Print (Found version_name (length (glob E (os_path_join folder_path ''*.afa'')))) # effs"
  have effs: "effs = snd (files_loop E version_name output_dir files [])"
    using loop by simp
  have "rs = concat (map (\<lambda>f. case fst (analyze_entry E version_name output_dir f) of
                                 Inl e \<Rightarrow> [] | Inr entry \<Rightarrow> [entry]) files)"
    using files_loop_results [of E version_name output_dir files "[]"] loop by simp
  with assms(4) loop have run: "process_folder E folder_path =
      (Inr (concat (map (\<lambda>f. case fst (analyze_entry E version_name output_dir f) of
                                 Inl e \<Rightarrow> [] | Inr entry \<Rightarrow> [entry]) files)), ?effs)"
    by (simp add: process_folder_def Let_def version_name_def output_dir_def files_def)
  have announced: "Print (Analyzing (basename f)) \<in> set ?effs" if "f \<in> set files" for f
    using files_loop_effects [OF that process_file_announced] by (simp add: effs)
  have unreadable: "fst (analyze_entry E version_name output_dir f) = Inl e"
    if "AlignIO_read E f = Inl e" for f e
    using that by (rule analyze_entry_unreadable)
  have logged: "Print (ErrorAnalyzing f e) \<in> set ?effs"
    if "f \<in> set files" and "fst (analyze_entry E version_name output_dir f) = Inl e" for f e
    using files_loop_effects [OF that(1) process_file_analysis_error [OF that(2)]]
    by (simp add: effs)
  have logged_report: "Print (ErrorAnalyzing f e) \<in> set ?effs"
    if "f \<in> set files" and "fst (analyze_entry E version_name output_dir f) = Inr entry"
      and "fst (write_report E output_dir f (Highly_Conserved entry)) = Some e" for f entry e
    using files_loop_effects [OF that(1) process_file_report_error [OF that(2) that(3)]]
    by (simp add: effs)
  from run announced unreadable logged logged_report show ?thesis
    by blast
qed

theorem file_failures_are_isolated_witness:
  "makedirs report_fails_env (os_path_join ''results'' (basename ''v1'')) = None
   \<and> AlignIO_read report_fails_env ''v1/b.afa'' = Inl (ValueError ''No records found in handle'')
   \<and> fst (process_folder report_fails_env ''v1'') =
       Inr [\<lparr>Version = ''v1'', MSA_file = ''a.afa'', Key_Residues = [],
              Highly_Conserved = [(1, Some 1), (2, Some 1), (3, Some 1), (4, Some 1)]\<rparr>,
            \<lparr>Version = ''v1'', MSA_file = ''c.afa'', Key_Residues = [],
              Highly_Conserved = [(1, Some 1), (2, Some 1), (3, Some 1)]\<rparr>]
   \<and> Print (ErrorAnalyzing ''v1/b.afa'' (ValueError ''No records found in handle''))
       \<in> set (snd (process_folder report_fails_env ''v1''))
   \<and> Print (ErrorAnalyzing ''v1/a.afa'' (OSError ''Is a directory''))
       \<in> set (snd (process_folder report_fails_env ''v1''))
   \<and> Print (Analyzing ''c.afa'') \<in> set (snd (process_folder report_fails_env ''v1''))"
proof -
  have h: "makedirs report_fails_env (os_path_join ''results'' (basename ''v1'')) = None"
    by code_simp
  have bad: "AlignIO_read report_fails_env ''v1/b.afa''
               = Inl (ValueError ''No records found in handle'')"
    by code_simp
  have b: "''v1/b.afa'' \<in> set (sort (glob report_fails_env (os_path_join ''v1'' ''*.afa'')))"
    by code_simp
  have c: "''v1/c.afa'' \<in> set (sort (glob report_fails_env (os_path_join ''v1'' ''*.afa'')))"
    by code_simp
  have name: "basename ''v1/c.afa'' = ''c.afa''"
    by code_simp
  have entries:
    "concat (map (\<lambda>f. case fst (analyze_entry report_fails_env (basename ''v1'')
                                  (os_path_join ''results'' (basename ''v1'')) f) of
                         Inl e \<Rightarrow> [] | Inr entry \<Rightarrow> [entry])
               (sort (glob report_fails_env (os_path_join ''v1'' ''*.afa'')))) =
       [\<lparr>Version = ''v1'', MSA_file = ''a.afa'', Key_Residues = [],
          Highly_Conserved = [(1, Some 1), (2, Some 1), (3, Some 1), (4, Some 1)]\<rparr>,
        \<lparr>Version = ''v1'', MSA_file = ''c.afa'', Key_Residues = [],
          Highly_Conserved = [(1, Some 1), (2, Some 1), (3, Some 1)]\<rparr>]"
    by code_simp
  note T = file_failures_are_isolated [OF h]
  from T entries have r1: "fst (process_folder report_fails_env ''v1'') =
       Inr [\<lparr>Version = ''v1'', MSA_file = ''a.afa'', Key_Residues = [],
              Highly_Conserved = [(1, Some 1), (2, Some 1), (3, Some 1), (4, Some 1)]\<rparr>,
            \<lparr>Version = ''v1'', MSA_file = ''c.afa'', Key_Residues = [],
              Highly_Conserved = [(1, Some 1), (2, Some 1), (3, Some 1)]\<rparr>]"
    by force
  from T bad b have r2: "Print (ErrorAnalyzing ''v1/b.afa'' (ValueError ''No records found in handle''))
       \<in> set (snd (process_folder report_fails_env ''v1''))"
    by force
  from T c name have r3: "Print (Analyzing ''c.afa'')
       \<in> set (snd (process_folder report_fails_env ''v1''))"
    by force
  have a: "''v1/a.afa'' \<in> set (sort (glob report_fails_env (os_path_join ''v1'' ''*.afa'')))"
    by code_simp
  have entry: "fst (analyze_entry report_fails_env (basename ''v1'')
                      (os_path_join ''results'' (basename ''v1'')) ''v1/a.afa'') =
      Inr \<lparr>Version = ''v1'', MSA_file = ''a.afa'', Key_Residues = [],
            Highly_Conserved = [(1, Some 1), (2, Some 1), (3, Some 1), (4, Some 1)]\<rparr>"
    by code_simp
  have report: "fst (write_report report_fails_env (os_path_join ''results'' (basename ''v1''))
                       ''v1/a.afa''
                       (Highly_Conserved
                          \<lparr>Version = ''v1'', MSA_file = ''a.afa'', Key_Residues = [],
                            Highly_Conserved =
                              [(1, Some 1), (2, Some 1), (3, Some 1), (4, Some 1)]\<rparr>)) =
      Some (OSError ''Is a directory'')"
    by code_simp
  from T a entry report have r4: "Print (ErrorAnalyzing ''v1/a.afa'' (OSError ''Is a directory''))
       \<in> set (snd (process_folder report_fails_env ''v1''))"
    by force
  from h bad r1 r2 r4 r3 show ?thesis
    by (intro conjI)
qed

section \<open>Properties of main\<close>

lemma last_os_path_join: "b \<noteq> [] \<Longrightarrow> last (os_path_join a b) = last b"
  by (cases b) (auto simp: os_path_join_def)

lemma combined_output_file_last: "last combined_output_file = CHR ''v''"
  by (simp add: combined_output_file_def os_path_join_def)

lemma analyze_msa_file_writes:
  "analyze_msa_file E f od = (r, effs) \<Longrightarrow> Write path c \<in> set effs \<Longrightarrow> last path = CHR ''g''"
  by (auto simp: analyze_msa_file_def Let_def last_os_path_join
      split: sum.splits option.splits)

lemma analyze_entry_writes:
  "analyze_entry E vn od f = (r, effs) \<Longrightarrow> Write path c \<in> set effs \<Longrightarrow> last path = CHR ''g''"
  by (auto simp: analyze_entry_def dest: analyze_msa_file_writes
      split: prod.splits sum.splits)

lemma write_report_writes:
  "write_report E od f hc = (r, effs) \<Longrightarrow> Write path c \<in> set effs \<Longrightarrow> last path = CHR ''t''"
  by (auto simp: write_report_def Let_def last_os_path_join split: option.splits)

lemma process_file_writes:
  "process_file E vn od f acc = (rs, effs) \<Longrightarrow> Write path c \<in> set effs \<Longrightarrow>
     last path = CHR ''g'' \<or> last path = CHR ''t''"
  by (auto simp: process_file_def Let_def
      dest: analyze_entry_writes write_report_writes
      split: prod.splits sum.splits option.splits)

lemma files_loop_writes:
  "files_loop E vn od files acc = (rs, effs) \<Longrightarrow> Write path c \<in> set effs \<Longrightarrow>
     last path = CHR ''g'' \<or> last path = CHR ''t''"
proof (induction files arbitrary: acc rs effs)
  case Nil
  then show ?case by simp
next
  case (Cons f files)
  obtain rs1 effs1 where step: "process_file E vn od f acc = (rs1, effs1)"
    by (cases "process_file E vn od f acc")
  obtain rs2 effs2 where rest: "files_loop E vn od files rs1 = (rs2, effs2)"
    by (cases "files_loop E vn od files rs1")
  from Cons.prems step rest have "Write path c \<in> set effs1 \<or> Write path c \<in> set effs2"
    by auto
  then show ?case
    using process_file_writes [OF step] Cons.IH [OF rest] by blast
qed

lemma process_folder_writes:
  "process_folder E folder_path = (r, effs) \<Longrightarrow> Write path c \<in> set effs \<Longrightarrow>
     last path = CHR ''g'' \<or> last path = CHR ''t''"
  by (auto simp: process_folder_def Let_def dest: files_loop_writes
      split: option.splits prod.splits)

lemma versions_loop_writes:
  "versions_loop E versions acc = (r, effs) \<Longrightarrow> Write path c \<in> set effs \<Longrightarrow>
     last path = CHR ''g'' \<or> last path = CHR ''t''"
proof (induction versions arbitrary: acc r effs)
  case Nil
  then show ?case by simp
next
  case (Cons v versions)
  show ?case
  proof (cases "path_exists E v")
    case False
    obtain r2 effs2 where rest: "versions_loop E versions acc = (r2, effs2)"
      by (cases "versions_loop E versions acc")
    with False Cons.prems have "Write path c \<in> set effs2"
      by auto
    with Cons.IH [OF rest] show ?thesis .
  next
    case True
    obtain r1 effs1 where folder: "process_folder E v = (r1, effs1)"
      by (cases "process_folder E v")
    show ?thesis
    proof (cases r1)
      case (Inl e)
      with True folder Cons.prems have "Write path c \<in> set effs1"
        by auto
      with process_folder_writes [OF folder] show ?thesis .
    next
      case (Inr results)
      obtain r2 effs2 where rest: "versions_loop E versions (acc @ results) = (r2, effs2)"
        by (cases "versions_loop E versions (acc @ results)")
      with True folder Inr Cons.prems
      have "Write path c \<in> set effs1 \<or> Write path c \<in> set effs2"
        by auto
      then show ?thesis
        using process_folder_writes [OF folder] Cons.IH [OF rest] by blast
    qed
  qed
qed

lemma versions_loop_no_combined:
  "versions_loop E versions acc = (r, effs) \<Longrightarrow> Write combined_output_file c \<notin> set effs"
  using versions_loop_writes [of E versions acc r effs combined_output_file c]
  by (auto simp: combined_output_file_last)

lemma main_combined:
  assumes "Write combined_output_file c \<in> set (snd (main E))"
  shows "\<exists>rs. fst (versions_loop E [''v1'', ''v2'', ''v3''] []) = Inr rs \<and> rs \<noteq> [] \<and> c = Combined rs"
proof -
  obtain r effs where loop: "versions_loop E [''v1'', ''v2'', ''v3''] [] = (r, effs)"
    by (cases "versions_loop E [''v1'', ''v2'', ''v3''] []")
  from versions_loop_no_combined [OF loop] have "Write combined_output_file c \<notin> set effs" .
  with assms loop show ?thesis
    by (auto simp: main_def Let_def split: option.splits sum.splits if_splits)
qed

text \<open>
  C9, as the claim states it, fails: its two conditions differ. In the run below no
  file is processed successfully, each of the three ending in the handler (the reader
  rejects \<^verbatim>\<open>b.afa\<close>, the reports of \<^verbatim>\<open>a.afa\<close> and \<^verbatim>\<open>c.afa\<close> cannot be opened), but
  the entries of \<^verbatim>\<open>a.afa\<close> and \<^verbatim>\<open>c.afa\<close> were appended before their reports, so the
  accumulated list is not empty and main writes the combined file.
\<close>

theorem no_successful_file_yet_combined_counterexample:
  "main no_report_env =
     (None,
      [Mkdir ''results'', Print (ProcessingVersion ''v1''),
       Mkdir ''results/v1'', Print (Found ''v1'' 3),
       Print (Analyzing ''a.afa''), Mkdir ''results/v1'',
       Write ''results/v1/a_conservation.png''
         (Plot [Some 1, Some 1, Some 1, Some 1, Some (2 / 3)] []),
       Print (ErrorAnalyzing ''v1/a.afa'' (OSError ''Permission denied'')),
       Print (Analyzing ''b.afa''),
       Print (ErrorAnalyzing ''v1/b.afa'' (ValueError ''No records found in handle'')),
       Print (Analyzing ''c.afa''), Mkdir ''results/v1'',
       Write ''results/v1/c_conservation.png'' (Plot [Some 1, Some 1, Some 1] []),
       Print (ErrorAnalyzing ''v1/c.afa'' (OSError ''Permission denied'')),
       Print (FolderNotFound ''v2''), Print (FolderNotFound ''v3''),
       Write ''results/combined_analysis.tsv''
         (Combined
            [\<lparr>Version = ''v1'', MSA_file = ''a.afa'', Key_Residues = [],
               Highly_Conserved = [(1, Some 1), (2, Some 1), (3, Some 1), (4, Some 1)]\<rparr>,
             \<lparr>Version = ''v1'', MSA_file = ''c.afa'', Key_Residues = [],
               Highly_Conserved = [(1, Some 1), (2, Some 1), (3, Some 1)]\<rparr>]),
       Print (CombinedSaved ''results/combined_analysis.tsv'')])"
  by code_simp

text \<open>
  C9, amended. If the accumulated list of results is empty, main writes no
  combined-analysis file at all: the serialization of the combined table is skipped
  and no empty file is produced. A combined file is written only with a non-empty
  list of results as its content.
\<close>

theorem no_results_no_combined_file:
  "(fst (versions_loop E [''v1'', ''v2'', ''v3''] []) = Inr [] \<longrightarrow>
      Write combined_output_file c \<notin> set (snd (main E)))
   \<and> (Write combined_output_file c \<in> set (snd (main E)) \<longrightarrow>
        (\<exists>rs. fst (versions_loop E [''v1'', ''v2'', ''v3''] []) = Inr rs \<and> rs \<noteq> []
           \<and> c = Combined rs))
   \<and> combined_output_file = ''results/combined_analysis.tsv''"
proof -
  have "combined_output_file = ''results/combined_analysis.tsv''"
    by (simp add: combined_output_file_def os_path_join_def)
  then show ?thesis
    using main_combined [of c E] by auto
qed

theorem no_results_no_combined_file_witness:
  "fst (versions_loop no_alignment_env [''v1'', ''v2'', ''v3''] []) = Inr []
   \<and> Write combined_output_file (Combined []) \<notin> set (snd (main no_alignment_env))
   \<and> Write ''results/combined_analysis.tsv'' (Combined []) \<notin> set (snd (main no_alignment_env))
   \<and> Write combined_output_file
         (Combined [\<lparr>Version = ''v1'', MSA_file = ''c.afa'', Key_Residues = [],
                     Highly_Conserved = [(1, Some 1), (2, Some 1), (3, Some 1)]\<rparr>])
       \<in> set (snd (main (example_env\<lparr>glob := (\<lambda>pattern. [''v1/c.afa''])\<rparr>)))
   \<and> fst (versions_loop (example_env\<lparr>glob := (\<lambda>pattern. [''v1/c.afa''])\<rparr>)
              [''v1'', ''v2'', ''v3''] []) =
       Inr [\<lparr>Version = ''v1'', MSA_file = ''c.afa'', Key_Residues = [],
              Highly_Conserved = [(1, Some 1), (2, Some 1), (3, Some 1)]\<rparr>]"
proof -
  have h: "fst (versions_loop no_alignment_env [''v1'', ''v2'', ''v3''] []) = Inr []"
    by code_simp
  note T = no_results_no_combined_file [of no_alignment_env "Combined []"]
  from T h have r1: "Write combined_output_file (Combined []) \<notin> set (snd (main no_alignment_env))"
    by blast
  from T have path: "combined_output_file = ''results/combined_analysis.tsv''"
    by blast
  have r2: "Write ''results/combined_analysis.tsv'' (Combined [])
      \<notin> set (snd (main no_alignment_env))"
    using r1 unfolding path .
  have w: "Write combined_output_file
         (Combined [\<lparr>Version = ''v1'', MSA_file = ''c.afa'', Key_Residues = [],
                     Highly_Conserved = [(1, Some 1), (2, Some 1), (3, Some 1)]\<rparr>])
       \<in> set (snd (main (example_env\<lparr>glob := (\<lambda>pattern. [''v1/c.afa''])\<rparr>)))"
    by code_simp
  from no_results_no_combined_file [of "example_env\<lparr>glob := (\<lambda>pattern. [''v1/c.afa''])\<rparr>"
      "Combined [\<lparr>Version = ''v1'', MSA_file = ''c.afa'', Key_Residues = [],
                  Highly_Conserved = [(1, Some 1), (2, Some 1), (3, Some 1)]\<rparr>]"] w
  have r3: "fst (versions_loop (example_env\<lparr>glob := (\<lambda>pattern. [''v1/c.afa''])\<rparr>)
              [''v1'', ''v2'', ''v3''] []) =
       Inr [\<lparr>Version = ''v1'', MSA_file = ''c.afa'', Key_Residues = [],
              Highly_Conserved = [(1, Some 1), (2, Some 1), (3, Some 1)]\<rparr>]"
    by auto
  from h r1 r2 w r3 show ?thesis
    by (intro conjI)
qed

end
